theory Spec2Isabelle
  imports Complex_Main "HOL-Library.AList"
begin

section \<open>Python values\<close>

text \<open>
  The server in \<^verbatim>\<open>app.py\<close> handles decoded JSON bodies and rows of a CSV file. Both are
  Python values. A finite float is the rational number it holds, \<open>Fin q\<close>; the two
  infinities and NaN are values of their own. \<^verbatim>\<open>float()\<close> rounds to binary64 (see
  \<open>round_fraction\<close> below), so the floats it returns are equal here exactly when they are
  equal in Python; the two zeros, which Python also holds equal, are both \<open>Fin 0\<close>. A
  float of a decoded JSON body is taken as it is given. A string is a list of 8-bit
  characters and stands for ASCII text. A dict is the list of its items in insertion
  order; a lookup takes the first item with the key.
\<close>

datatype pyfloat = Fin rat | PosInf | NegInf | NaN

datatype pyval =
    PNone
  | PBool bool
  | PInt int
  | PFloat pyfloat
  | PStr string
  | PList "pyval list"
  | PDict "(string \<times> pyval) list"

text \<open>Truth value of a Python value, as \<^verbatim>\<open>or\<close> tests it.\<close>

fun truthy :: "pyval \<Rightarrow> bool" where
  "truthy PNone = False"
| "truthy (PBool b) = b"
| "truthy (PInt n) = (n \<noteq> 0)"
| "truthy (PFloat f) = (f \<noteq> Fin 0)"
| "truthy (PStr s) = (s \<noteq> [])"
| "truthy (PList xs) = (xs \<noteq> [])"
| "truthy (PDict kvs) = (kvs \<noteq> [])"

text \<open>\<^verbatim>\<open>a or b\<close>: the first operand when it is truthy, else the second.\<close>

definition py_or :: "pyval \<Rightarrow> pyval \<Rightarrow> pyval" where
  "py_or a b = (if truthy a then a else b)"

text \<open>\<^verbatim>\<open>d.get(k)\<close> on a dict with string keys: \<^verbatim>\<open>None\<close> when the key is absent.\<close>

definition dict_get :: "(string \<times> pyval) list \<Rightarrow> string \<Rightarrow> pyval" where
  "dict_get d k = (case map_of d k of None \<Rightarrow> PNone | Some v \<Rightarrow> v)"

section \<open>The built-in \<^verbatim>\<open>float()\<close>\<close>

text \<open>
  \<^verbatim>\<open>float(s)\<close> on a string: underscores are allowed between two digits only and are
  removed; white space around the text is dropped; what is left is an optional sign followed
  by \<^verbatim>\<open>inf\<close>, \<^verbatim>\<open>infinity\<close> or \<^verbatim>\<open>nan\<close> in any case, or by a decimal
  numeral with at least one digit and an optional exponent, which is rounded to the nearest
  float. A numeral that rounds beyond the largest float gives an infinity. Anything else
  raises \<^verbatim>\<open>ValueError\<close> (\<open>None\<close> here).
\<close>

definition is_digit :: "char \<Rightarrow> bool" where
  "is_digit c = (c \<in> set ''0123456789'')"

definition is_space :: "char \<Rightarrow> bool" where
  "is_space c = (c \<in> set [CHR '' '', CHR 0x09, CHR 0x0A, CHR 0x0B, CHR 0x0C, CHR 0x0D])"

definition digit_val :: "char \<Rightarrow> int" where
  "digit_val c = of_char c - 48"

definition digits_val :: "string \<Rightarrow> int" where
  "digits_val ds = foldl (\<lambda>a c. 10 * a + digit_val c) 0 ds"

definition lower :: "char \<Rightarrow> char" where
  "lower c = (if 65 \<le> (of_char c :: nat) \<and> (of_char c :: nat) \<le> 90
              then char_of (of_char c + (32 :: nat)) else c)"

definition strip :: "string \<Rightarrow> string" where
  "strip s = rev (dropWhile is_space (rev (dropWhile is_space s)))"

text \<open>The underscore rule: an underscore follows a digit and precedes a digit.\<close>

fun underscores_ok :: "char \<Rightarrow> string \<Rightarrow> bool" where
  "underscores_ok prev [] = (prev \<noteq> CHR ''_'')"
| "underscores_ok prev (c # cs) =
     (if c = CHR ''_'' then is_digit prev \<and> underscores_ok c cs
      else if prev = CHR ''_'' then is_digit c \<and> underscores_ok c cs
      else underscores_ok c cs)"

text \<open>
  Rounding to binary64, to nearest and half to even, as \<^verbatim>\<open>float()\<close> does for a decimal
  numeral and for an integer. \<open>bit_length n\<close> is the number of binary digits of a positive
  \<open>n\<close>; \<open>floor_log2 n d\<close> is the exponent \<open>e\<close> with \<open>2 ^ e \<le> n / d < 2 ^ (e + 1)\<close>;
  \<open>div_half_even a b\<close> is \<open>a / b\<close> rounded to an integer. A float has 53 binary digits
  above the least exponent \<open>- 1074\<close>; a result of \<open>2 ^ 1024\<close> or more is an infinity.
\<close>

definition pow2 :: "int \<Rightarrow> rat" where
  "pow2 e = (if 0 \<le> e then of_int (2 ^ nat e) else 1 / of_int (2 ^ nat (- e)))"

function bit_length :: "int \<Rightarrow> int" where
  "bit_length n = (if n \<le> 0 then 0 else bit_length (n div 2) + 1)"
  by auto
termination
  by (relation "measure nat") auto

declare bit_length.simps [simp del]

definition floor_log2 :: "int \<Rightarrow> int \<Rightarrow> int" where
  "floor_log2 n d =
     (let k = bit_length n - bit_length d
      in if (if 0 \<le> k then 2 ^ nat k * d \<le> n else d \<le> n * 2 ^ nat (- k)) then k else k - 1)"

definition div_half_even :: "int \<Rightarrow> int \<Rightarrow> int" where
  "div_half_even a b =
     (let f = a div b; r = 2 * (a mod b)
      in if r < b then f else if b < r then f + 1 else if even f then f else f + 1)"

text \<open>The float nearest to \<open>n / d\<close>, or to its negative, for \<open>0 \<le> n\<close> and \<open>0 < d\<close>.\<close>

definition round_fraction :: "bool \<Rightarrow> int \<Rightarrow> int \<Rightarrow> pyfloat" where
  "round_fraction neg n d =
     (if n = 0 then Fin 0
      else
        let p = max (floor_log2 n d - 52) (- 1074);
            m = (if 0 \<le> p then div_half_even n (d * 2 ^ nat p)
                 else div_half_even (n * 2 ^ nat (- p)) d)
        in if m = 0 then Fin 0
           else if 0 \<le> p \<and> 2 ^ 1024 \<le> m * 2 ^ nat p then (if neg then NegInf else PosInf)
           else Fin ((if neg then - of_int m else of_int m) * pow2 p))"

text \<open>The text after the mantissa: nothing, or \<^verbatim>\<open>e\<close>, an optional sign and digits.\<close>

definition parse_exponent :: "string \<Rightarrow> int option" where
  "parse_exponent s =
     (case s of
        [] \<Rightarrow> Some 0
      | c # t \<Rightarrow>
          if c = CHR ''e'' \<or> c = CHR ''E'' then
            (let neg = (case t of [] \<Rightarrow> False | x # _ \<Rightarrow> x = CHR ''-'');
                 ds = (case t of [] \<Rightarrow> []
                       | x # u \<Rightarrow> if x = CHR ''-'' \<or> x = CHR ''+'' then u else t)
             in if ds \<noteq> [] \<and> list_all is_digit ds
                then Some (if neg then - digits_val ds else digits_val ds)
                else None)
          else None)"

text \<open>
  A decimal numeral as the fraction it denotes: numerator and denominator, not reduced.
\<close>

definition parse_decimal :: "string \<Rightarrow> (int \<times> int) option" where
  "parse_decimal s =
     (let ip = takeWhile is_digit s;
          r1 = dropWhile is_digit s;
          fp = (case r1 of [] \<Rightarrow> [] | c # t \<Rightarrow> if c = CHR ''.'' then takeWhile is_digit t else []);
          r2 = (case r1 of [] \<Rightarrow> [] | c # t \<Rightarrow> if c = CHR ''.'' then dropWhile is_digit t else r1)
      in if ip = [] \<and> fp = [] then None
         else (case parse_exponent r2 of
                 None \<Rightarrow> None
               | Some e \<Rightarrow>
                   (let e10 = e - int (length fp); digits = digits_val (ip @ fp)
                    in if 0 \<le> e10 then Some (digits * 10 ^ nat e10, 1)
                       else Some (digits, 10 ^ nat (- e10)))))"

definition float_of_string :: "string \<Rightarrow> pyfloat option" where
  "float_of_string s =
     (if \<not> underscores_ok (CHR 0x00) s then None
      else
        let t = strip (filter (\<lambda>c. c \<noteq> CHR ''_'') s);
            neg = (case t of [] \<Rightarrow> False | x # _ \<Rightarrow> x = CHR ''-'');
            body = (case t of [] \<Rightarrow> []
                    | x # u \<Rightarrow> if x = CHR ''-'' \<or> x = CHR ''+'' then u else t);
            word = map lower body
        in if word = ''inf'' \<or> word = ''infinity'' then Some (if neg then NegInf else PosInf)
           else if word = ''nan'' then Some NaN
           else (case parse_decimal body of
                   None \<Rightarrow> None
                 | Some nd \<Rightarrow> Some (round_fraction neg (fst nd) (snd nd))))"

text \<open>
  \<^verbatim>\<open>float(v)\<close> on any value. \<open>None\<close> is an exception: \<^verbatim>\<open>TypeError\<close> for
  \<^verbatim>\<open>None\<close>, a list or a dict, \<^verbatim>\<open>OverflowError\<close> for an integer too large,
  \<^verbatim>\<open>ValueError\<close> for a string that is no numeral. Both callers catch all of them
  with \<^verbatim>\<open>except Exception\<close>. A bool is an integer in Python.
\<close>

fun py_float :: "pyval \<Rightarrow> pyfloat option" where
  "py_float PNone = None"
| "py_float (PBool b) = Some (Fin (if b then 1 else 0))"
| "py_float (PInt n) =
     (case round_fraction (n < 0) \<bar>n\<bar> 1 of Fin q \<Rightarrow> Some (Fin q) | _ \<Rightarrow> None)"
| "py_float (PFloat f) = Some f"
| "py_float (PStr s) = float_of_string s"
| "py_float (PList xs) = None"
| "py_float (PDict kvs) = None"

section \<open>Ingestion: \<^verbatim>\<open>POST /location\<close>\<close>

text \<open>
  An exception that no handler catches leaves the view function; Flask answers 500.
  \<open>TimestampError\<close> is the \<^verbatim>\<open>OverflowError\<close>, \<^verbatim>\<open>ValueError\<close> or
  \<^verbatim>\<open>OSError\<close> of \<^verbatim>\<open>datetime.fromtimestamp\<close>; \<open>LimitValueError\<close> is the
  \<^verbatim>\<open>ValueError\<close> of \<^verbatim>\<open>int()\<close> on a \<^verbatim>\<open>limit\<close> parameter that is no number;
  \<open>TypeError\<close> is raised by \<^verbatim>\<open>jsonify\<close> on keys it cannot sort.
\<close>

datatype exn = AttributeError | TimestampError | LimitValueError | TypeError

text \<open>The two shapes of JSON body the handler answers with, and the status code.\<close>

datatype body = JError string | JStatus string

type_synonym reply = "body \<times> nat"

text \<open>
  A cell handed to \<^verbatim>\<open>csv.writer\<close>. The writer stores the text \<^verbatim>\<open>str(v)\<close> of a
  value, and the empty text for \<^verbatim>\<open>None\<close>. Two texts are kept symbolic: the
  \<^verbatim>\<open>isoformat()\<close> of a moment, and \<^verbatim>\<open>json.dumps\<close> of the payload.
\<close>

datatype moment = ClockNow | EpochMicros int

datatype cell = Val pyval | IsoFormat moment | JsonDumps pyval

text \<open>
  \<^verbatim>\<open>bus.csv\<close> as the writer sees it: absent, or the rows written so far. Opening a
  file for append creates it. The file is taken to be writable.
\<close>

type_synonym written_file = "cell list list option"

definition rows_of :: "written_file \<Rightarrow> cell list list" where
  "rows_of f = (case f of None \<Rightarrow> [] | Some rows \<Rightarrow> rows)"

definition append_row :: "cell list \<Rightarrow> written_file \<Rightarrow> written_file" where
  "append_row r f = Some (rows_of f @ [r])"

definition csv_header :: "string list" where
  "csv_header = [''device_id'', ''latitude'', ''longitude'', ''accuracy'', ''provider'',
                 ''timestamp_iso'', ''timestamp_raw'', ''received_at'', ''raw_json'']"

definition init_csv :: "written_file \<Rightarrow> written_file" where
  "init_csv f = (case f of None \<Rightarrow> Some [map (\<lambda>s. Val (PStr s)) csv_header] | Some rows \<Rightarrow> Some rows)"

text \<open>
  \<^verbatim>\<open>datetime.fromtimestamp(tst, tz=timezone.utc)\<close> on a POSIX host: the argument is
  rounded to microseconds, half to even, and must fall in the years 1 to 9999. The result
  is the number of microseconds since the epoch; \<open>None\<close> is an exception.
\<close>

definition round_half_even :: "rat \<Rightarrow> int" where
  "round_half_even x =
     (let f = \<lfloor>x\<rfloor>; d = x - of_int f
      in if d < 1 / 2 then f else if 1 / 2 < d then f + 1 else if even f then f else f + 1)"

definition micros_in_range :: "int \<Rightarrow> int option" where
  "micros_in_range us =
     (if - 62135596800 * 1000000 \<le> us \<and> us \<le> 253402300799 * 1000000 + 999999
      then Some us else None)"

fun fromtimestamp :: "pyval \<Rightarrow> int option" where
  "fromtimestamp (PBool b) = Some (if b then 1000000 else 0)"
| "fromtimestamp (PInt n) = micros_in_range (n * 1000000)"
| "fromtimestamp (PFloat (Fin q)) = micros_in_range (round_half_even (q * 1000000))"
| "fromtimestamp v = None"

text \<open>\<^verbatim>\<open>isinstance(tst, (int, float))\<close>.\<close>

fun is_number :: "pyval \<Rightarrow> bool" where
  "is_number (PBool b) = True"
| "is_number (PInt n) = True"
| "is_number (PFloat f) = True"
| "is_number v = False"

text \<open>\<^verbatim>\<open>parse_timestamp(data)\<close>: the pair \<^verbatim>\<open>(timestamp_iso, timestamp_raw)\<close>.\<close>

definition parse_timestamp :: "pyval \<Rightarrow> exn + cell \<times> pyval" where
  "parse_timestamp data =
     (case data of
        PDict d \<Rightarrow>
          (case dict_get d ''timestamp'' of
             PStr s \<Rightarrow> Inr (Val (PStr s), PStr s)
           | _ \<Rightarrow>
               (let tst = dict_get d ''tst''
                in if is_number tst then
                     (case fromtimestamp tst of
                        None \<Rightarrow> Inl TimestampError
                      | Some us \<Rightarrow> Inr (IsoFormat (EpochMicros us), tst))
                   else Inr (IsoFormat ClockNow, PNone)))
      | _ \<Rightarrow> Inr (IsoFormat ClockNow, PNone))"

text \<open>The field resolutions of lines 82 to 93, each an \<^verbatim>\<open>or\<close> chain.\<close>

definition resolve_device_id :: "(string \<times> pyval) list \<Rightarrow> pyval" where
  "resolve_device_id d =
     py_or (py_or (py_or (dict_get d ''device_id'') (dict_get d ''tid'')) (dict_get d ''topic''))
       (PStr ''unknown'')"

definition resolve_lat :: "(string \<times> pyval) list \<Rightarrow> pyval" where
  "resolve_lat d = py_or (dict_get d ''lat'') (dict_get d ''latitude'')"

definition resolve_lon :: "(string \<times> pyval) list \<Rightarrow> pyval" where
  "resolve_lon d = py_or (dict_get d ''lon'') (dict_get d ''longitude'')"

definition resolve_accuracy :: "(string \<times> pyval) list \<Rightarrow> pyval" where
  "resolve_accuracy d = py_or (py_or (dict_get d ''accuracy'') (dict_get d ''acc'')) (PStr [])"

definition resolve_provider :: "(string \<times> pyval) list \<Rightarrow> pyval" where
  "resolve_provider d =
     py_or (py_or (py_or (dict_get d ''provider'') (dict_get d ''t'')) (dict_get d ''source''))
       (PStr [])"

text \<open>
  \<^verbatim>\<open>location()\<close>. The argument is what \<^verbatim>\<open>request.get_json(force=True, silent=True)\<close>
  returned: \<^verbatim>\<open>None\<close> for a body that is absent, not JSON, or the JSON \<^verbatim>\<open>null\<close>.
  The first \<^verbatim>\<open>data.get\<close> raises \<^verbatim>\<open>AttributeError\<close> on anything but a dict.
\<close>

definition location :: "pyval \<Rightarrow> written_file \<Rightarrow> (exn + reply) \<times> written_file" where
  "location data f =
     (case data of
        PNone \<Rightarrow> (Inr (JError ''missing json'', 400), f)
      | PDict d \<Rightarrow>
          if dict_get d ''_type'' = PStr ''status'' then (Inr (JStatus ''ignored'', 200), f)
          else
            (let device_id = resolve_device_id d;
                 lat = resolve_lat d;
                 lon = resolve_lon d;
                 accuracy = resolve_accuracy d;
                 provider = resolve_provider d
             in case parse_timestamp data of
                  Inl e \<Rightarrow> (Inl e, f)
                | Inr (timestamp_iso, timestamp_raw) \<Rightarrow>
                    (case py_float lat of
                       None \<Rightarrow> (Inr (JError ''bad lat/lon'', 400), f)
                     | Some lat_val \<Rightarrow>
                         (case py_float lon of
                            None \<Rightarrow> (Inr (JError ''bad lat/lon'', 400), f)
                          | Some lon_val \<Rightarrow>
                              (Inr (JStatus ''ok'', 201),
                               append_row
                                 [Val device_id, Val (PFloat lat_val), Val (PFloat lon_val),
                                  Val accuracy, Val provider, timestamp_iso, Val timestamp_raw,
                                  IsoFormat ClockNow, JsonDumps data] f))))
      | _ \<Rightarrow> (Inl AttributeError, f))"

text \<open>
  The \<^verbatim>\<open>device_id\<close> cell of the row written last, if there is one, and the first truthy
  value of a list with a default: the names under which the properties below speak of them.
\<close>

definition last_device_id :: "written_file \<Rightarrow> cell option" where
  "last_device_id f =
     (case rev (rows_of f) of
        [] \<Rightarrow> None
      | r # _ \<Rightarrow> (case r of [] \<Rightarrow> None | c # _ \<Rightarrow> Some c))"

definition first_truthy :: "pyval list \<Rightarrow> pyval \<Rightarrow> pyval" where
  "first_truthy vs dflt = (case filter truthy vs of [] \<Rightarrow> dflt | v # _ \<Rightarrow> v)"

section \<open>The store as it is read back\<close>

text \<open>
  \<^verbatim>\<open>bus.csv\<close> as a reader sees it: absent, unreadable (\<^verbatim>\<open>open\<close> raises, or the bytes
  are no text), or text that splits into rows, each a list of fields; a blank line is the
  empty row. The text the writer makes of a cell is not modelled: the properties of
  ingestion speak of the cells written, those of the queries of any text read.
\<close>

datatype store_file = Missing | Unreadable | Content "string list list"

text \<open>
  A row dict of \<^verbatim>\<open>csv.DictReader\<close>, in insertion order. The key \<open>None\<close> is the reader's
  \<^verbatim>\<open>restkey\<close>, under which the surplus fields of a long row are kept as a list; the
  missing fields of a short row get the \<^verbatim>\<open>restval\<close> \<^verbatim>\<open>None\<close>.
\<close>

type_synonym row = "(string option \<times> pyval) list"

definition dict_row :: "string list \<Rightarrow> string list \<Rightarrow> row" where
  "dict_row fieldnames r =
     (let d = fold (\<lambda>kv. AList.update (Some (fst kv)) (PStr (snd kv))) (zip fieldnames r) [];
          lf = length fieldnames;
          lr = length r
      in if lf < lr then AList.update None (PList (map PStr (drop lf r))) d
         else if lr < lf then fold (\<lambda>key. AList.update (Some key) PNone) (drop lr fieldnames) d
         else d)"

text \<open>The first row gives the field names; blank rows after it are skipped.\<close>

fun dict_reader :: "string list list \<Rightarrow> row list" where
  "dict_reader [] = []"
| "dict_reader (fieldnames # rows) = map (dict_row fieldnames) (filter (\<lambda>r. r \<noteq> []) rows)"

text \<open>
  \<^verbatim>\<open>list(csv.DictReader(f))\<close> under \<^verbatim>\<open>with open(CSV_FILE, "r")\<close>; \<open>None\<close> is the
  exception the enclosing \<^verbatim>\<open>try\<close> catches. The CSV parser raises on a field of more
  than 131072 characters, its default limit; the writer has no such limit.
\<close>

definition field_size_limit :: "int" where
  "field_size_limit = 131072"

definition read_rows :: "store_file \<Rightarrow> row list option" where
  "read_rows f =
     (case f of
        Content rows \<Rightarrow>
          if list_all (list_all (\<lambda>field. int (length field) \<le> field_size_limit)) rows
          then Some (dict_reader rows) else None
      | _ \<Rightarrow> None)"

text \<open>\<^verbatim>\<open>row.get(k, default)\<close>.\<close>

definition row_get :: "row \<Rightarrow> string \<Rightarrow> pyval \<Rightarrow> pyval" where
  "row_get r k dflt = (case map_of r (Some k) of None \<Rightarrow> dflt | Some v \<Rightarrow> v)"

text \<open>
  The \<^verbatim>\<open>limit\<close> query parameter after \<^verbatim>\<open>int(request.args.get("limit", default))\<close>:
  absent, a text that \<^verbatim>\<open>int()\<close> reads as a number, or a text it rejects with
  \<^verbatim>\<open>ValueError\<close>.
\<close>

datatype query_limit = Absent | Numeral int | Malformed

definition int_arg :: "query_limit \<Rightarrow> int \<Rightarrow> exn + int" where
  "int_arg q dflt = (case q of Absent \<Rightarrow> Inr dflt | Numeral n \<Rightarrow> Inr n | Malformed \<Rightarrow> Inl LimitValueError)"

text \<open>The slices \<^verbatim>\<open>xs[k:]\<close> and \<^verbatim>\<open>xs[:k]\<close>; a negative bound counts from the end.\<close>

definition slice_from :: "int \<Rightarrow> 'a list \<Rightarrow> 'a list" where
  "slice_from k xs = (if k < 0 then drop (nat (int (length xs) + k)) xs else drop (nat k) xs)"

definition slice_to :: "int \<Rightarrow> 'a list \<Rightarrow> 'a list" where
  "slice_to k xs = (if k < 0 then take (nat (int (length xs) + k)) xs else take (nat k) xs)"

section \<open>Queries\<close>

text \<open>
  \<^verbatim>\<open>jsonify\<close> writes every dict with its keys sorted. A row dict holds string keys and
  perhaps the key \<^verbatim>\<open>None\<close>; sorting compares \<^verbatim>\<open>None\<close> with a string, and raises
  \<^verbatim>\<open>TypeError\<close>, as soon as the dict holds \<^verbatim>\<open>None\<close> and one more key. The values of
  a row (strings, \<^verbatim>\<open>None\<close>, floats with NaN and the infinities, a list of strings) all
  serialise. A reply is modelled by the value serialised.
\<close>

definition sortable_keys :: "row \<Rightarrow> bool" where
  "sortable_keys r = (if length r \<le> 1 then True else list_all (\<lambda>item. fst item \<noteq> None) r)"

definition jsonify_row :: "row \<Rightarrow> exn + row" where
  "jsonify_row r = (if sortable_keys r then Inr r else Inl TypeError)"

definition jsonify_rows :: "row list \<Rightarrow> exn + row list" where
  "jsonify_rows rs = (if list_all sortable_keys rs then Inr rs else Inl TypeError)"

text \<open>\<^verbatim>\<open>recent_locations()\<close>: the slice is taken in the \<^verbatim>\<open>try\<close>, the reply made after it.\<close>

definition recent_locations :: "query_limit \<Rightarrow> store_file \<Rightarrow> exn + row list" where
  "recent_locations q f =
     (case int_arg q 100 of
        Inl e \<Rightarrow> Inl e
      | Inr limit \<Rightarrow>
          jsonify_rows (case read_rows f of
                          Some reader \<Rightarrow> slice_from (- limit) reader
                        | None \<Rightarrow> []))"

text \<open>
  The second loop of \<^verbatim>\<open>get_latest_locations\<close>: both coordinates become floats, or both
  become \<^verbatim>\<open>None\<close> when either conversion raises.
\<close>

definition coerce_row :: "row \<Rightarrow> row" where
  "coerce_row r =
     (case py_float (row_get r ''latitude'' (PInt 0)) of
        None \<Rightarrow> AList.update (Some ''longitude'') PNone (AList.update (Some ''latitude'') PNone r)
      | Some la \<Rightarrow>
          (case py_float (row_get (AList.update (Some ''latitude'') (PFloat la) r) ''longitude'' (PInt 0)) of
             None \<Rightarrow>
               AList.update (Some ''longitude'') PNone
                 (AList.update (Some ''latitude'') PNone
                    (AList.update (Some ''latitude'') (PFloat la) r))
           | Some lo \<Rightarrow>
               AList.update (Some ''longitude'') (PFloat lo)
                 (AList.update (Some ''latitude'') (PFloat la) r)))"

text \<open>The first loop: the dict \<^verbatim>\<open>latest\<close>, keyed by device, each row overwriting the last.\<close>

definition latest_by_device :: "row list \<Rightarrow> (pyval \<times> row) list" where
  "latest_by_device reader =
     fold (\<lambda>row. AList.update (row_get row ''device_id'' (PStr ''unknown'')) row) reader []"

definition get_latest_locations :: "store_file \<Rightarrow> row list" where
  "get_latest_locations f =
     (case read_rows f of
        Some reader \<Rightarrow> map (\<lambda>item. coerce_row (snd item)) (latest_by_device reader)
      | None \<Rightarrow> [])"

definition api_vehicles :: "query_limit \<Rightarrow> store_file \<Rightarrow> exn + row list" where
  "api_vehicles q f =
     (case int_arg q 0 of
        Inl e \<Rightarrow> Inl e
      | Inr limit \<Rightarrow>
          (let vehicles = get_latest_locations f
           in jsonify_rows (if limit \<noteq> 0 \<and> 0 < limit then slice_to limit vehicles else vehicles)))"

text \<open>\<^verbatim>\<open>api_vehicle(device_id)\<close>: the row with 200, or the empty object with 404.\<close>

definition api_vehicle :: "string \<Rightarrow> store_file \<Rightarrow> exn + row \<times> nat" where
  "api_vehicle device_id f =
     (case find (\<lambda>v. row_get v ''device_id'' PNone = PStr device_id) (get_latest_locations f) of
        Some v \<Rightarrow> (case jsonify_row v of Inl e \<Rightarrow> Inl e | Inr j \<Rightarrow> Inr (j, 200))
      | None \<Rightarrow> Inr ([], 404))"

text \<open>
  The rule \<^verbatim>\<open>/api/vehicles/<device_id>\<close> takes one path segment: a text that is not empty
  and holds no slash. \<open>None\<close>: the rule does not match and the view is not called.
\<close>

definition string_converter :: "string \<Rightarrow> bool" where
  "string_converter segment = (segment \<noteq> [] \<and> list_all (\<lambda>c. c \<noteq> CHR ''/'') segment)"

definition vehicle_request :: "string \<Rightarrow> store_file \<Rightarrow> (exn + row \<times> nat) option" where
  "vehicle_request path f = (if string_converter path then Some (api_vehicle path f) else None)"


definition api_locations_latest :: "store_file \<Rightarrow> row" where
  "api_locations_latest f =
     (case read_rows f of
        Some reader \<Rightarrow>
          (case rev reader of
             [] \<Rightarrow> []
           | r # _ \<Rightarrow> (case jsonify_row r of Inr j \<Rightarrow> j | Inl e \<Rightarrow> []))
      | None \<Rightarrow> [])"

text \<open>
  A \<^verbatim>\<open>GET\<close> handler opens the file for reading only: the request hands the store on as
  it found it.
\<close>

definition reading :: "(store_file \<Rightarrow> 'a) \<Rightarrow> store_file \<Rightarrow> 'a \<times> store_file" where
  "reading handler f = (handler f, f)"

text \<open>
  The order in which the values of a list are first seen: the order of the keys of a dict
  filled from that list.
\<close>

definition first_seen :: "'a list \<Rightarrow> 'a list" where
  "first_seen xs = rev (remdups (rev xs))"

section \<open>The change stream: \<^verbatim>\<open>GET /api/stream\<close>\<close>

text \<open>
  \<^verbatim>\<open>last_sent\<close> maps a device to the pair of coordinates sent last. A coordinate of a
  vehicle is \<^verbatim>\<open>None\<close> or a float that \<^verbatim>\<open>float()\<close> made of a text, so rounded;
  \<^verbatim>\<open>==\<close> on two of them is equality, except that NaN equals nothing, itself included
  (each pass makes new float objects, so the identity shortcut of tuple comparison never
  applies to a float).
\<close>

type_synonym sent = "(pyval \<times> pyval \<times> pyval) list"

definition same_coord :: "pyval \<Rightarrow> pyval \<Rightarrow> bool" where
  "same_coord x y = (x = y \<and> x \<noteq> PFloat NaN)"

text \<open>\<^verbatim>\<open>last_sent.get(dev) != coords\<close>; \<^verbatim>\<open>None\<close> differs from every tuple.\<close>

definition coords_differ :: "(pyval \<times> pyval) option \<Rightarrow> pyval \<times> pyval \<Rightarrow> bool" where
  "coords_differ old coords =
     (case old of
        None \<Rightarrow> True
      | Some prev \<Rightarrow> \<not> (same_coord (fst prev) (fst coords) \<and> same_coord (snd prev) (snd coords)))"

definition dev_of :: "row \<Rightarrow> pyval" where
  "dev_of v = row_get v ''device_id'' PNone"

definition coords_of :: "row \<Rightarrow> pyval \<times> pyval" where
  "coords_of v = (row_get v ''latitude'' PNone, row_get v ''longitude'' PNone)"

text \<open>The body of \<^verbatim>\<open>for v in vehicles\<close>, on the pair of \<^verbatim>\<open>last_sent\<close> and \<^verbatim>\<open>changed\<close>.\<close>

definition visit :: "row \<Rightarrow> sent \<times> row list \<Rightarrow> sent \<times> row list" where
  "visit v st =
     (let last_sent = fst st;
          changed = snd st;
          dev = dev_of v;
          coords = coords_of v
      in if coords_differ (map_of last_sent dev) coords
         then (AList.update dev coords last_sent, changed @ [v])
         else (last_sent, changed))"

text \<open>
  One pass of the \<^verbatim>\<open>while True\<close> body on the store as it is at that moment: the new
  \<^verbatim>\<open>last_sent\<close> and the events yielded, none or one. An event carries the list
  \<^verbatim>\<open>changed\<close>, which \<^verbatim>\<open>json.dumps\<close> serialises.
\<close>

definition poll :: "store_file \<Rightarrow> sent \<Rightarrow> sent \<times> row list list" where
  "poll f last_sent =
     (let vehicles = get_latest_locations f;
          st = fold visit vehicles (last_sent, []);
          changed = snd st
      in (fst st, if changed \<noteq> [] then [changed] else []))"

text \<open>
  The generator runs for ever. \<open>event_stream\<close> gives its state after as many passes as
  there are store snapshots, one snapshot per pass: \<^verbatim>\<open>last_sent\<close>, and the events yielded
  so far. \<^verbatim>\<open>last_sent\<close> starts empty.
\<close>

fun event_stream :: "store_file list \<Rightarrow> sent \<Rightarrow> sent \<times> row list list" where
  "event_stream [] last_sent = (last_sent, [])"
| "event_stream (f # fs) last_sent =
     (let pass = poll f last_sent;
          rest = event_stream fs (fst pass)
      in (fst rest, snd pass @ snd rest))"

definition api_stream :: "store_file list \<Rightarrow> sent \<times> row list list" where
  "api_stream fs = event_stream fs []"

section \<open>Example data\<close>

text \<open>
  A store of three records: \<^verbatim>\<open>bus1\<close> reports twice, and its later row carries the
  earlier client timestamp. \<open>example_sent\<close> is a \<^verbatim>\<open>last_sent\<close> that already holds the
  current position of \<^verbatim>\<open>bus1\<close>. Then a store whose one record has a field beyond the
  parser's limit, a store whose one device is named by a topic, and a store whose one
  device has the latitude \<^verbatim>\<open>nan\<close>.
\<close>

definition example_rows :: "string list list" where
  "example_rows =
     [csv_header,
      [''bus1'', ''1.5'', ''2.5'', [], [], ''2024-05-02T10:00:00'', [], ''r1'', ''{}''],
      [''bus2'', ''7'', ''8'', [], [], ''2024-05-01T09:00:00'', [], ''r2'', ''{}''],
      [''bus1'', ''3'', ''4'', [], [], ''2024-05-01T08:00:00'', [], ''r3'', ''{}'']]"

definition example_store :: "store_file" where
  "example_store = Content example_rows"

definition example_sent :: "sent" where
  "example_sent = [(PStr ''bus1'', PFloat (Fin 3), PFloat (Fin 4))]"

definition oversize_rows :: "string list list" where
  "oversize_rows =
     [csv_header,
      [''bus1'', ''1.5'', ''2.5'', [], [], ''t'', [], ''r'', replicate 131073 (CHR ''x'')]]"

definition topic_rows :: "string list list" where
  "topic_rows =
     [csv_header,
      [''owntracks/u/d'', ''1.5'', ''2.5'', [], [], ''t'', [], ''r'', ''{}'']]"

definition nan_rows :: "string list list" where
  "nan_rows =
     [csv_header,
      [''bus1'', ''nan'', ''3'', [], [], ''t'', [], ''r'', ''{}'']]"

text \<open>The first store after \<^verbatim>\<open>bus2\<close> has reported a new position.\<close>

definition moved_rows :: "string list list" where
  "moved_rows =
     example_rows @ [[''bus2'', ''9'', ''8'', [], [], ''2024-05-02T11:00:00'', [], ''r4'', ''{}'']]"

section \<open>Properties of ingestion\<close>

text \<open>
  C5: a payload whose \<^verbatim>\<open>_type\<close> is \<^verbatim>\<open>"status"\<close> is answered with 200 and
  \<^verbatim>\<open>{"status": "ignored"}\<close>, and the store is handed back as it was: nothing is appended.
\<close>

theorem status_ignored:
  "dict_get d ''_type'' = PStr ''status'' \<Longrightarrow>
     location (PDict d) f = (Inr (JStatus ''ignored'', 200), f)"
  by (simp add: location_def)

theorem status_ignored_witness:
  "dict_get [(''_type'', PStr ''status'')] ''_type'' = PStr ''status'' \<and>
   location (PDict [(''_type'', PStr ''status'')]) (Some [[Val (PStr ''device_id'')]]) =
     (Inr (JStatus ''ignored'', 200), Some [[Val (PStr ''device_id'')]])"
proof -
  have h: "dict_get [(''_type'', PStr ''status'')] ''_type'' = PStr ''status''"
    by (simp add: dict_get_def)
  show ?thesis using h status_ignored [OF h] by simp
qed

text \<open>
  C3: the claim is that a body which is valid JSON but no object is answered with 400 and
  \<^verbatim>\<open>{"error": "bad lat/lon"}\<close>. The handler calls \<^verbatim>\<open>data.get\<close> before any check of
  the type, so every such body (a bool, a number, a string, an array) ends in an
  \<^verbatim>\<open>AttributeError\<close> that nothing catches. Nothing is written.
\<close>

theorem non_object_raises:
  "location (PBool b) f = (Inl AttributeError, f) \<and>
   location (PInt n) f = (Inl AttributeError, f) \<and>
   location (PFloat x) f = (Inl AttributeError, f) \<and>
   location (PStr s) f = (Inl AttributeError, f) \<and>
   location (PList xs) f = (Inl AttributeError, f)"
  by (simp add: location_def)

text \<open>
  C4: the claim is that \<^verbatim>\<open>lat\<close> is used whenever it is present and not null, so that
  \<^verbatim>\<open>{"lat": 0, "lon": 10}\<close> ingests latitude 0. The \<^verbatim>\<open>or\<close> of line 89 drops the
  falsy 0: the latitude resolves to \<^verbatim>\<open>None\<close> and the request is rejected.
\<close>

theorem zero_latitude_rejected:
  "resolve_lat [(''lat'', PInt 0), (''lon'', PInt 10)] = PNone \<and>
   location (PDict [(''lat'', PInt 0), (''lon'', PInt 10)]) f =
     (Inr (JError ''bad lat/lon'', 400), f)"
  by (simp add: location_def resolve_lat_def resolve_lon_def dict_get_def py_or_def
        parse_timestamp_def)




lemma resolve_device_id_first_truthy:
  "resolve_device_id d =
     first_truthy [dict_get d ''device_id'', dict_get d ''tid'', dict_get d ''topic'']
       (PStr ''unknown'')"
  by (simp add: resolve_device_id_def first_truthy_def py_or_def)

lemma first_truthy_truthy: "truthy dflt \<Longrightarrow> truthy (first_truthy vs dflt)"
  by (induction vs) (auto simp: first_truthy_def)

text \<open>
  C8, as amended: when a payload is ingested, the \<^verbatim>\<open>device_id\<close> written is the first
  truthy value (not null, not empty, not zero, not false) among the fields
  \<^verbatim>\<open>device_id\<close>, \<^verbatim>\<open>tid\<close> and \<^verbatim>\<open>topic\<close>, else the text \<^verbatim>\<open>unknown\<close>; it is
  neither the empty string nor \<^verbatim>\<open>None\<close>, the two values the writer turns into the
  empty text. Exactly one row is appended.
\<close>

theorem stored_device_id:
  assumes "fst (location (PDict d) f) = Inr (JStatus ''ok'', 201)"
  shows "last_device_id (snd (location (PDict d) f)) =
           Some (Val (first_truthy [dict_get d ''device_id'', dict_get d ''tid'', dict_get d ''topic'']
                        (PStr ''unknown'')))
         \<and> first_truthy [dict_get d ''device_id'', dict_get d ''tid'', dict_get d ''topic'']
              (PStr ''unknown'') \<noteq> PStr []
         \<and> first_truthy [dict_get d ''device_id'', dict_get d ''tid'', dict_get d ''topic'']
              (PStr ''unknown'') \<noteq> PNone
         \<and> length (rows_of (snd (location (PDict d) f))) = Suc (length (rows_of f))"
proof -
  let ?v = "first_truthy [dict_get d ''device_id'', dict_get d ''tid'', dict_get d ''topic'']
              (PStr ''unknown'')"
  have "truthy ?v" by (rule first_truthy_truthy) simp
  then have ne: "?v \<noteq> PStr [] \<and> ?v \<noteq> PNone" by auto
  from assms
  have row: "last_device_id (snd (location (PDict d) f)) = Some (Val (resolve_device_id d))
      \<and> length (rows_of (snd (location (PDict d) f))) = Suc (length (rows_of f))"
    by (auto simp: location_def last_device_id_def append_row_def rows_of_def
          split: if_splits sum.splits option.splits prod.splits)
  with ne show ?thesis by (simp add: resolve_device_id_first_truthy)
qed

theorem stored_device_id_witness:
  "fst (location (PDict [(''tid'', PStr ''car1''), (''lat'', PStr ''40.1''), (''lon'', PStr ''-8.6''),
          (''tst'', PInt 1700000000)]) None) = Inr (JStatus ''ok'', 201) \<and>
   last_device_id (snd (location (PDict [(''tid'', PStr ''car1''), (''lat'', PStr ''40.1''),
          (''lon'', PStr ''-8.6''), (''tst'', PInt 1700000000)]) None)) = Some (Val (PStr ''car1''))"
proof -
  let ?d = "[(''tid'', PStr ''car1''), (''lat'', PStr ''40.1''), (''lon'', PStr ''-8.6''),
          (''tst'', PInt 1700000000)]"
  have h: "fst (location (PDict ?d) None) = Inr (JStatus ''ok'', 201)" by code_simp
  have v: "first_truthy [dict_get ?d ''device_id'', dict_get ?d ''tid'', dict_get ?d ''topic'']
              (PStr ''unknown'') = PStr ''car1''" by code_simp
  from stored_device_id [OF h] v h show ?thesis by simp
qed

text \<open>
  Against C8 as stated: the field \<^verbatim>\<open>device_id\<close> holds the empty string, which is not
  null and comes first in the chain, yet the id written is that of \<^verbatim>\<open>tid\<close>.
\<close>

theorem empty_device_id_skipped:
  "dict_get [(''device_id'', PStr []), (''tid'', PStr ''bus7''), (''lat'', PInt 1), (''lon'', PInt 10)]
     ''device_id'' = PStr [] \<and>
   fst (location (PDict [(''device_id'', PStr []), (''tid'', PStr ''bus7''), (''lat'', PInt 1),
          (''lon'', PInt 10)]) None) = Inr (JStatus ''ok'', 201) \<and>
   last_device_id (snd (location (PDict [(''device_id'', PStr []), (''tid'', PStr ''bus7''),
          (''lat'', PInt 1), (''lon'', PInt 10)]) None)) = Some (Val (PStr ''bus7''))"
  by code_simp

section \<open>The float model on test values\<close>

text \<open>
  \<^verbatim>\<open>0.1\<close> and \<^verbatim>\<open>0.10000000000000001\<close> are one float; \<^verbatim>\<open>1e-400\<close> is zero;
  \<^verbatim>\<open>1e309\<close> is an infinity, and an integer of that size raises.
\<close>

lemma round_tenth:
  "float_of_string ''0.1'' = Some (Fin (3602879701896397 / 36028797018963968)) \<and>
   float_of_string ''0.10000000000000001'' = float_of_string ''0.1''"
  by code_simp

lemma round_tiny: "float_of_string ''1e-400'' = Some (Fin 0)"
  by code_simp

lemma round_huge: "float_of_string ''1e309'' = Some PosInf \<and> py_float (PInt (2 ^ 1024)) = None"
  by code_simp

section \<open>Properties of the queries\<close>

subsection \<open>Association lists and the row dicts\<close>

lemma find_rev_last:
  "find P (rev xs) = (if filter P xs = [] then None else Some (last (filter P xs)))"
  by (induction xs rule: rev_induct) auto

lemma find_append_case:
  "find P (xs @ ys) = (case find P xs of Some x \<Rightarrow> Some x | None \<Rightarrow> find P ys)"
  by (induction xs) auto

lemma map_of_fold_update:
  "map_of (fold (\<lambda>row. AList.update (k row) row) rows acc) x =
     (case find (\<lambda>r. k r = x) (rev rows) of Some r \<Rightarrow> Some r | None \<Rightarrow> map_of acc x)"
proof (induction rows arbitrary: acc)
  case Nil
  then show ?case by simp
next
  case (Cons r rs)
  show ?case
    by (simp add: Cons.IH find_append_case update_conv' split: option.splits)
qed

lemma find_fst_map_of:
  "map_of al x = Some r \<Longrightarrow> find (\<lambda>p. fst p = x) al = Some (x, r)"
  by (induction al) (auto split: if_splits)

lemma set_update_subset: "set (AList.update k v al) \<subseteq> insert (k, v) (set al)"
  by (induction al) auto

lemma fold_update_items:
  "p \<in> set (fold (\<lambda>row. AList.update (k row) row) rows acc) \<Longrightarrow>
     p \<in> set acc \<or> (snd p \<in> set rows \<and> fst p = k (snd p))"
proof (induction rows arbitrary: acc)
  case Nil
  then show ?case by simp
next
  case (Cons r rs)
  from Cons.IH [of "AList.update (k r) r acc"] Cons.prems
  have "p \<in> set (AList.update (k r) r acc) \<or> (snd p \<in> set rs \<and> fst p = k (snd p))"
    by simp
  with set_update_subset [of "k r" r acc] show ?case by auto
qed

lemma fold_update_distinct:
  "distinct (map fst acc) \<Longrightarrow> distinct (map fst (fold (\<lambda>row. AList.update (k row) row) rows acc))"
  by (induction rows arbitrary: acc) (simp_all add: distinct_update)


lemma keys_fold_update_zip:
  "fst ` set (fold (\<lambda>kv. AList.update (Some (fst kv)) (PStr (snd kv))) ps acc) =
     fst ` set acc \<union> Some ` fst ` set ps"
  by (induction ps arbitrary: acc) (auto simp: dom_update)

lemma keys_fold_update_none:
  "fst ` set (fold (\<lambda>key. AList.update (Some key) PNone) ks acc) = fst ` set acc \<union> Some ` set ks"
  by (induction ks arbitrary: acc) (auto simp: dom_update)

lemma set_zip_fst_take: "fst ` set (zip xs ys) = set (take (length ys) xs)"
proof (induction xs arbitrary: ys)
  case Nil
  then show ?case by simp
next
  case (Cons x xs)
  then show ?case by (cases ys) auto
qed

lemma dict_row_keys:
  "Some k \<in> fst ` set (dict_row fieldnames r) \<longleftrightarrow> k \<in> set fieldnames"
proof -
  have split: "set fieldnames = set (take (length r) fieldnames) \<union> set (drop (length r) fieldnames)"
    by (metis append_take_drop_id set_append)
  have short: "\<not> length r < length fieldnames \<Longrightarrow> take (length r) fieldnames = fieldnames"
    by simp
  show ?thesis
    unfolding dict_row_def Let_def
    by (auto simp: dom_update keys_fold_update_zip keys_fold_update_none set_zip_fst_take
          image_Un image_image dest: in_set_takeD in_set_dropD)
       (use split short in auto)
qed


lemma map_of_Some_key: "(map_of al x \<noteq> None) = (x \<in> fst ` set al)"
  by (simp add: map_of_eq_None_iff)

lemma find_map_list: "find P (map g xs) = map_option g (find (\<lambda>x. P (g x)) xs)"
  by (induction xs) auto

lemma dict_reader_field:
  assumes "r \<in> set (dict_reader rows)" and "r' \<in> set (dict_reader rows)"
    and "map_of r (Some k) \<noteq> None"
  shows "map_of r' (Some k) \<noteq> None"
proof (cases rows)
  case Nil
  with assms(1) show ?thesis by simp
next
  case (Cons h ls)
  with assms obtain x x' where "r = dict_row h x" "r' = dict_row h x'" "Some k \<in> fst ` set r"
    unfolding map_of_Some_key by auto
  then show ?thesis
    unfolding map_of_Some_key by (simp add: dict_row_keys)
qed

lemma row_get_coerce_row:
  "k \<noteq> ''latitude'' \<Longrightarrow> k \<noteq> ''longitude'' \<Longrightarrow> row_get (coerce_row r) k dflt = row_get r k dflt"
  by (simp add: coerce_row_def row_get_def update_conv' split: option.splits)

lemma dev_of_coerce_row: "dev_of (coerce_row r) = dev_of r"
  by (simp add: dev_of_def row_get_coerce_row)

lemma coords_of_coerce_row:
  "coords_of (coerce_row r) =
     (case py_float (row_get r ''latitude'' (PInt 0)) of
        None \<Rightarrow> (PNone, PNone)
      | Some la \<Rightarrow>
          (case py_float (row_get r ''longitude'' (PInt 0)) of
             None \<Rightarrow> (PNone, PNone)
           | Some lo \<Rightarrow> (PFloat la, PFloat lo)))"
  by (simp add: coerce_row_def coords_of_def row_get_def update_conv' split: option.splits)

lemma key_is_dev:
  assumes "r0 \<in> set (dict_reader rows)" and "map_of r0 (Some ''device_id'') \<noteq> None"
    and "r \<in> set (dict_reader rows)"
  shows "row_get r ''device_id'' (PStr ''unknown'') = dev_of r"
proof -
  have "map_of r (Some ''device_id'') \<noteq> None"
    by (rule dict_reader_field [OF assms(1) assms(3) assms(2)])
  then show ?thesis
    by (auto simp: dev_of_def row_get_def split: option.splits)
qed

lemma latest_key_is_dev:
  assumes "r0 \<in> set (dict_reader rows)" and "dev_of r0 = PStr d" and "r \<in> set (dict_reader rows)"
  shows "row_get r ''device_id'' (PStr ''unknown'') = dev_of r"
proof -
  from assms(2) have "map_of r0 (Some ''device_id'') \<noteq> None"
    by (auto simp: dev_of_def row_get_def split: option.splits)
  with assms(1) show ?thesis using assms(3) by (rule key_is_dev)
qed

lemma read_rows_dict_reader:
  "read_rows f = Some reader \<Longrightarrow> \<exists>rows. reader = dict_reader rows"
  by (auto simp: read_rows_def split: store_file.splits if_splits)

lemma find_latest_device:
  assumes rd: "read_rows f = Some reader"
    and r0: "r0 \<in> set reader"
    and d: "dev_of r0 = PStr d"
  shows "find (\<lambda>v. row_get v ''device_id'' PNone = PStr d) (get_latest_locations f)
           = Some (coerce_row (last (filter (\<lambda>r. dev_of r = PStr d) reader)))"
proof -
  let ?key = "\<lambda>row. row_get row ''device_id'' (PStr ''unknown'')"
  let ?P = "\<lambda>r. dev_of r = PStr d"
  let ?rl = "last (filter ?P reader)"
  obtain rows where reader: "reader = dict_reader rows"
    using read_rows_dict_reader [OF rd] by blast
  have key: "?key r = dev_of r" if "r \<in> set reader" for r
    using latest_key_is_dev [of r0 rows d r] r0 d that reader by simp
  have ne: "filter ?P reader \<noteq> []"
    using r0 d by (auto simp: filter_empty_conv)
  have "filter (\<lambda>r. ?key r = PStr d) reader = filter ?P reader"
    by (rule filter_cong) (simp_all add: key)
  then have "map_of (latest_by_device reader) (PStr d) = Some ?rl"
    using ne by (simp add: latest_by_device_def map_of_fold_update find_rev_last)
  then have first: "find (\<lambda>p. fst p = PStr d) (latest_by_device reader) = Some (PStr d, ?rl)"
    by (rule find_fst_map_of)
  have item: "dev_of (coerce_row (snd p)) = fst p" if "p \<in> set (latest_by_device reader)" for p
  proof -
    from that have "snd p \<in> set reader \<and> fst p = ?key (snd p)"
      unfolding latest_by_device_def by (auto dest: fold_update_items)
    then show ?thesis by (simp add: dev_of_coerce_row key)
  qed
  have "find (\<lambda>p. dev_of (coerce_row (snd p)) = PStr d) (latest_by_device reader)
          = find (\<lambda>p. fst p = PStr d) (latest_by_device reader)"
    by (rule find_cong) (simp_all add: item)
  with first have "find (\<lambda>v. dev_of v = PStr d) (get_latest_locations f) = Some (coerce_row ?rl)"
    by (simp add: get_latest_locations_def rd find_map_list)
  then show ?thesis by (simp add: dev_of_def)
qed

text \<open>
  C1, as amended: when the path segment is one the URL rule takes, the store can be read, a
  device id appears in it and the row to return has keys that \<^verbatim>\<open>jsonify\<close> can sort,
  \<^verbatim>\<open>GET /api/vehicles/<device_id>\<close> answers 200 with the row of that device that comes
  last in the file; the coordinates returned are the floats that the latitude and
  longitude texts of that row denote (both \<^verbatim>\<open>None\<close> when one of the texts is no number).
  Only the order of arrival decides: no timestamp field is looked at. When the store cannot
  be read, the answer is 404 for every device.
\<close>

theorem last_write_wins:
  assumes conv: "string_converter d"
    and rd: "read_rows f = Some reader"
    and r0: "r0 \<in> set reader"
    and d: "dev_of r0 = PStr d"
    and keys: "sortable_keys (coerce_row (last (filter (\<lambda>r. dev_of r = PStr d) reader)))"
  shows "vehicle_request d f
           = Some (Inr (coerce_row (last (filter (\<lambda>r. dev_of r = PStr d) reader)), 200))
       \<and> coords_of (coerce_row (last (filter (\<lambda>r. dev_of r = PStr d) reader))) =
           (case py_float (row_get (last (filter (\<lambda>r. dev_of r = PStr d) reader))
                             ''latitude'' (PInt 0)) of
              None \<Rightarrow> (PNone, PNone)
            | Some la \<Rightarrow>
                (case py_float (row_get (last (filter (\<lambda>r. dev_of r = PStr d) reader))
                                  ''longitude'' (PInt 0)) of
                   None \<Rightarrow> (PNone, PNone)
                 | Some lo \<Rightarrow> (PFloat la, PFloat lo)))
       \<and> (read_rows g = None \<longrightarrow> vehicle_request d g = Some (Inr ([], 404)))"
proof -
  have "api_vehicle d f = Inr (coerce_row (last (filter (\<lambda>r. dev_of r = PStr d) reader)), 200)"
    using keys by (simp add: api_vehicle_def find_latest_device [OF rd r0 d] jsonify_row_def)
  moreover have "read_rows g = None \<longrightarrow> api_vehicle d g = Inr ([], 404)"
    by (simp add: api_vehicle_def get_latest_locations_def)
  ultimately show ?thesis
    using conv by (simp add: vehicle_request_def coords_of_coerce_row)
qed

theorem last_write_wins_witness:
  "string_converter ''bus1'' \<and>
   read_rows example_store = Some (dict_reader example_rows) \<and>
   dict_row csv_header [''bus1'', ''3'', ''4'', [], [], ''2024-05-01T08:00:00'', [], ''r3'', ''{}'']
     \<in> set (dict_reader example_rows) \<and>
   dev_of (dict_row csv_header
       [''bus1'', ''3'', ''4'', [], [], ''2024-05-01T08:00:00'', [], ''r3'', ''{}'']) = PStr ''bus1'' \<and>
   sortable_keys (coerce_row (last (filter (\<lambda>r. dev_of r = PStr ''bus1'')
       (dict_reader example_rows)))) \<and>
   vehicle_request ''bus1'' example_store =
     Some (Inr (coerce_row (dict_row csv_header
       [''bus1'', ''3'', ''4'', [], [], ''2024-05-01T08:00:00'', [], ''r3'', ''{}'']), 200)) \<and>
   coords_of (coerce_row (dict_row csv_header
       [''bus1'', ''3'', ''4'', [], [], ''2024-05-01T08:00:00'', [], ''r3'', ''{}'']))
     = (PFloat (Fin 3), PFloat (Fin 4))"
proof -
  let ?r0 = "dict_row csv_header
       [''bus1'', ''3'', ''4'', [], [], ''2024-05-01T08:00:00'', [], ''r3'', ''{}'']"
  have h0: "string_converter ''bus1''" by code_simp
  have h1: "read_rows example_store = Some (dict_reader example_rows)" by code_simp
  have h2: "?r0 \<in> set (dict_reader example_rows)" by code_simp
  have h3: "dev_of ?r0 = PStr ''bus1''" by code_simp
  have l: "last (filter (\<lambda>r. dev_of r = PStr ''bus1'') (dict_reader example_rows)) = ?r0"
    by code_simp
  have h4: "sortable_keys (coerce_row (last (filter (\<lambda>r. dev_of r = PStr ''bus1'')
       (dict_reader example_rows))))" by code_simp
  have c: "coords_of (coerce_row ?r0) = (PFloat (Fin 3), PFloat (Fin 4))" by code_simp
  from last_write_wins [OF h0 h1 h2 h3 h4]
  have "vehicle_request ''bus1'' example_store
          = Some (Inr (coerce_row (last (filter (\<lambda>r. dev_of r = PStr ''bus1'')
                (dict_reader example_rows))), 200))"
    by (rule conjunct1)
  then have "vehicle_request ''bus1'' example_store = Some (Inr (coerce_row ?r0, 200))"
    unfolding l .
  with h0 h1 h2 h3 h4 c show ?thesis by blast
qed

text \<open>
  Against C1 as stated: a store whose one record, of \<^verbatim>\<open>bus1\<close>, holds a field beyond the
  parser's limit cannot be read, and \<^verbatim>\<open>bus1\<close> is answered 404; a device named by a
  topic, with slashes, is in a store that reads well, and no request reaches the view for
  it.
\<close>

theorem unreadable_or_unroutable_device:
  "map hd (tl oversize_rows) = [''bus1''] \<and>
   vehicle_request ''bus1'' (Content oversize_rows) = Some (Inr ([], 404)) \<and>
   map hd (tl topic_rows) = [''owntracks/u/d''] \<and>
   read_rows (Content topic_rows) = Some (dict_reader topic_rows) \<and>
   vehicle_request ''owntracks/u/d'' (Content topic_rows) = None"
proof -
  have big: "read_rows (Content oversize_rows) = None"
    by (simp add: read_rows_def oversize_rows_def field_size_limit_def csv_header_def)
  have a: "map hd (tl oversize_rows) = [''bus1'']"
    by (simp add: oversize_rows_def)
  have b: "vehicle_request ''bus1'' (Content oversize_rows) = Some (Inr ([], 404))"
    by (simp add: vehicle_request_def string_converter_def api_vehicle_def
          get_latest_locations_def big)
  have c: "map hd (tl topic_rows) = [''owntracks/u/d'']"
    by (simp add: topic_rows_def)
  have d: "read_rows (Content topic_rows) = Some (dict_reader topic_rows)" by code_simp
  have e: "vehicle_request ''owntracks/u/d'' (Content topic_rows) = None"
    by (simp add: vehicle_request_def string_converter_def)
  from a b c d e show ?thesis by blast
qed



subsection \<open>The reduction in closed form\<close>

text \<open>
  The devices come in the order in which each is first seen in the file, and each comes
  with the last of its rows.
\<close>

lemma latest_order_first_seen:
  "map fst (latest_by_device reader) =
     rev (remdups (rev (map (\<lambda>row. row_get row ''device_id'' (PStr ''unknown'')) reader)))"
proof (induction reader rule: rev_induct)
  case Nil
  then show ?case by (simp add: latest_by_device_def)
next
  case (snoc r rs)
  let ?key = "\<lambda>row. row_get row ''device_id'' (PStr ''unknown'')"
  have step: "latest_by_device (rs @ [r]) = AList.update (?key r) r (latest_by_device rs)"
    by (simp add: latest_by_device_def)
  have "set (map fst (latest_by_device rs)) = set (map ?key rs)"
    unfolding snoc.IH by simp
  then show ?case
    by (simp add: step update_keys snoc.IH)
qed

lemma alist_by_keys:
  "distinct (map fst al) \<Longrightarrow> map (\<lambda>k. (k, the (map_of al k))) (map fst al) = al"
proof (induction al)
  case Nil
  then show ?case by simp
next
  case (Cons p al)
  obtain k v where p: "p = (k, v)" by (cases p)
  from Cons.prems p have nin: "k \<notin> fst ` set al" and d: "distinct (map fst al)" by auto
  have "map (\<lambda>k'. (k', the (map_of ((k, v) # al) k'))) (map fst al)
      = map (\<lambda>k'. (k', the (map_of al k'))) (map fst al)"
    using nin by (intro map_cong) auto
  with Cons.IH [OF d] p show ?case by simp
qed

lemma latest_explicit:
  "latest_by_device reader =
     map (\<lambda>k. (k, last (filter (\<lambda>r. row_get r ''device_id'' (PStr ''unknown'') = k) reader)))
       (first_seen (map (\<lambda>r. row_get r ''device_id'' (PStr ''unknown'')) reader))"
proof -
  let ?key = "\<lambda>r. row_get r ''device_id'' (PStr ''unknown'')"
  let ?al = "latest_by_device reader"
  have d: "distinct (map fst ?al)"
    unfolding latest_by_device_def by (rule fold_update_distinct) simp
  have keys: "map fst ?al = first_seen (map ?key reader)"
    by (simp add: first_seen_def latest_order_first_seen)
  have val: "the (map_of ?al k) = last (filter (\<lambda>r. ?key r = k) reader)"
    if "k \<in> set (first_seen (map ?key reader))" for k
  proof -
    from that have "k \<in> ?key ` set reader" by (simp add: first_seen_def)
    then have "filter (\<lambda>r. ?key r = k) reader \<noteq> []"
      by (auto simp: filter_empty_conv)
    then show ?thesis
      by (simp add: latest_by_device_def map_of_fold_update find_rev_last)
  qed
  have "?al = map (\<lambda>k. (k, the (map_of ?al k))) (map fst ?al)"
    using alist_by_keys [OF d] by simp
  also have "\<dots> = map (\<lambda>k. (k, last (filter (\<lambda>r. ?key r = k) reader)))
                     (first_seen (map ?key reader))"
    unfolding keys by (rule map_cong) (simp_all add: val)
  finally show ?thesis .
qed

text \<open>
  C9: \<^verbatim>\<open>GET /api/vehicles\<close> leaves the store as it found it, so a second request with
  the same limit gives the same reply. That reply is fixed by the file and the limit alone:
  \<^verbatim>\<open>jsonify\<close> of the devices in the order in which each is first seen in the file,
  each with the last of its rows, coerced, cut to the first \<open>limit\<close> when the limit is
  positive; and the empty list when the store cannot be read.
\<close>

theorem vehicles_read_twice:
  assumes "reading (api_vehicles q) f = (r1, f1)"
    and "reading (api_vehicles q) f1 = (r2, f2)"
  shows "r2 = r1 \<and> f2 = f
       \<and> (read_rows f = Some reader \<and> int_arg q 0 = Inr limit \<longrightarrow>
            r1 = jsonify_rows
                   ((if 0 < limit then take (nat limit) else (\<lambda>vehicles. vehicles))
                      (map (\<lambda>k. coerce_row (last (filter
                               (\<lambda>r. row_get r ''device_id'' (PStr ''unknown'') = k) reader)))
                         (first_seen (map (\<lambda>r. row_get r ''device_id'' (PStr ''unknown''))
                            reader)))))
       \<and> (read_rows f = None \<and> int_arg q 0 = Inr limit \<longrightarrow> r1 = Inr [])"
proof -
  from assms have same: "r2 = r1 \<and> f2 = f" and r1: "r1 = api_vehicles q f"
    by (auto simp: reading_def)
  have ex: "read_rows f = Some reader \<Longrightarrow> get_latest_locations f =
      map (\<lambda>k. coerce_row (last (filter
               (\<lambda>r. row_get r ''device_id'' (PStr ''unknown'') = k) reader)))
        (first_seen (map (\<lambda>r. row_get r ''device_id'' (PStr ''unknown'')) reader))"
    by (simp add: get_latest_locations_def latest_explicit comp_def)
  have a: "read_rows f = Some reader \<and> int_arg q 0 = Inr limit \<longrightarrow>
            r1 = jsonify_rows
                   ((if 0 < limit then take (nat limit) else (\<lambda>vehicles. vehicles))
                      (map (\<lambda>k. coerce_row (last (filter
                               (\<lambda>r. row_get r ''device_id'' (PStr ''unknown'') = k) reader)))
                         (first_seen (map (\<lambda>r. row_get r ''device_id'' (PStr ''unknown''))
                            reader))))"
    using ex by (auto simp: r1 api_vehicles_def slice_to_def)
  have b: "read_rows f = None \<and> int_arg q 0 = Inr limit \<longrightarrow> r1 = Inr []"
    by (auto simp: r1 api_vehicles_def get_latest_locations_def slice_to_def jsonify_rows_def)
  from same a b show ?thesis by blast
qed

theorem vehicles_read_twice_witness:
  "reading (api_vehicles (Numeral 1)) example_store
     = (Inr [coerce_row (dict_row csv_header
          [''bus1'', ''3'', ''4'', [], [], ''2024-05-01T08:00:00'', [], ''r3'', ''{}''])],
        example_store) \<and>
   read_rows example_store = Some (dict_reader example_rows) \<and>
   int_arg (Numeral 1) 0 = Inr 1 \<and>
   first_seen (map (\<lambda>r. row_get r ''device_id'' (PStr ''unknown'')) (dict_reader example_rows))
     = [PStr ''bus1'', PStr ''bus2'']"
proof -
  let ?r = "Inr [coerce_row (dict_row csv_header
          [''bus1'', ''3'', ''4'', [], [], ''2024-05-01T08:00:00'', [], ''r3'', ''{}''])]
            :: exn + row list"
  have v: "api_vehicles (Numeral 1) example_store = ?r" by code_simp
  have h: "reading (api_vehicles (Numeral 1)) example_store = (?r, example_store)"
    by (simp add: reading_def v)
  have h1: "read_rows example_store = Some (dict_reader example_rows)" by code_simp
  have h2: "int_arg (Numeral 1) 0 = Inr 1" by (simp add: int_arg_def)
  have o: "first_seen (map (\<lambda>r. row_get r ''device_id'' (PStr ''unknown''))
             (dict_reader example_rows)) = [PStr ''bus1'', PStr ''bus2'']" by code_simp
  from vehicles_read_twice [OF h h, of "dict_reader example_rows" 1] h h1 h2 o
  show ?thesis by simp
qed

lemma slice_from_last:
  "0 < n \<Longrightarrow> slice_from (- n) xs = drop (length xs - nat n) xs"
proof -
  assume "0 < n"
  then have "nat (int (length xs) + - n) = length xs - nat n" by arith
  with \<open>0 < n\<close> show ?thesis by (simp add: slice_from_def)
qed

text \<open>
  C10, as amended: when the store can be read, \<^verbatim>\<open>GET /locations/recent\<close> with limit 0
  answers with the whole history in file order whenever its rows serialise, since
  \<^verbatim>\<open>reader[-0:]\<close> is \<^verbatim>\<open>reader[0:]\<close>; with a positive limit \<open>n\<close> it answers with the
  last \<open>min n (length history)\<close> rows, in file order, whenever those serialise. When
  the store cannot be read the answer is the empty list, whatever was appended.
\<close>

theorem recent_limit_slices:
  assumes "read_rows f = Some reader"
  shows "(list_all sortable_keys reader \<longrightarrow> recent_locations (Numeral 0) f = Inr reader)
       \<and> (0 < n \<and> list_all sortable_keys (drop (length reader - nat n) reader) \<longrightarrow>
            recent_locations (Numeral n) f = Inr (drop (length reader - nat n) reader)
            \<and> length (drop (length reader - nat n) reader) = min (nat n) (length reader))
       \<and> (read_rows g = None \<longrightarrow> recent_locations (Numeral n) g = Inr [])"
proof -
  have zero: "slice_from (- 0) reader = reader"
    by (simp add: slice_from_def)
  have a: "list_all sortable_keys reader \<longrightarrow> recent_locations (Numeral 0) f = Inr reader"
    using assms zero by (simp add: recent_locations_def int_arg_def jsonify_rows_def)
  have b: "0 < n \<and> list_all sortable_keys (drop (length reader - nat n) reader) \<longrightarrow>
            recent_locations (Numeral n) f = Inr (drop (length reader - nat n) reader)
            \<and> length (drop (length reader - nat n) reader) = min (nat n) (length reader)"
    using assms
    by (auto simp: recent_locations_def int_arg_def slice_from_last jsonify_rows_def)
  have c: "read_rows g = None \<longrightarrow> recent_locations (Numeral n) g = Inr []"
    by (simp add: recent_locations_def int_arg_def jsonify_rows_def)
  from a b c show ?thesis by blast
qed

theorem recent_limit_slices_witness:
  "read_rows example_store = Some (dict_reader example_rows) \<and>
   list_all sortable_keys (dict_reader example_rows) \<and>
   (0 :: int) < 2 \<and>
   list_all sortable_keys (drop (length (dict_reader example_rows) - nat 2)
      (dict_reader example_rows)) \<and>
   recent_locations (Numeral 0) example_store = Inr (dict_reader example_rows) \<and>
   recent_locations (Numeral 2) example_store
     = Inr [dict_row csv_header
              [''bus2'', ''7'', ''8'', [], [], ''2024-05-01T09:00:00'', [], ''r2'', ''{}''],
            dict_row csv_header
              [''bus1'', ''3'', ''4'', [], [], ''2024-05-01T08:00:00'', [], ''r3'', ''{}'']]"
proof -
  have h1: "read_rows example_store = Some (dict_reader example_rows)" by code_simp
  have h2: "list_all sortable_keys (dict_reader example_rows)" by code_simp
  have h3: "(0 :: int) < 2" by simp
  have h4: "list_all sortable_keys (drop (length (dict_reader example_rows) - nat 2)
      (dict_reader example_rows))" by code_simp
  have d: "drop (length (dict_reader example_rows) - nat 2) (dict_reader example_rows)
      = [dict_row csv_header
              [''bus2'', ''7'', ''8'', [], [], ''2024-05-01T09:00:00'', [], ''r2'', ''{}''],
            dict_row csv_header
              [''bus1'', ''3'', ''4'', [], [], ''2024-05-01T08:00:00'', [], ''r3'', ''{}'']]"
    by code_simp
  from recent_limit_slices [OF h1, of 2] h2 h3 h4
  have "recent_locations (Numeral 0) example_store = Inr (dict_reader example_rows)"
    and "recent_locations (Numeral 2) example_store
           = Inr (drop (length (dict_reader example_rows) - nat 2) (dict_reader example_rows))"
    by blast+
  with h1 h2 h3 h4 show ?thesis unfolding d by blast
qed

text \<open>
  Against C10 as stated: the store holds one record, which has a field beyond the parser's
  limit; with limit 0 the answer is the empty list, not the history.
\<close>

theorem unreadable_history_empty:
  "length (tl oversize_rows) = 1 \<and>
   recent_locations (Numeral 0) (Content oversize_rows) = Inr []"
proof -
  have big: "read_rows (Content oversize_rows) = None"
    by (simp add: read_rows_def oversize_rows_def field_size_limit_def csv_header_def)
  show ?thesis
    by (simp add: recent_locations_def int_arg_def big jsonify_rows_def) (simp add: oversize_rows_def)
qed

section \<open>Properties of the change stream\<close>

lemma other_device: "f v \<notin> f ` S \<Longrightarrow> w \<in> S \<Longrightarrow> f w \<noteq> f v"
  by (metis imageI)

lemma visit_pair:
  "visit v (ls, ch) =
     (if coords_differ (map_of ls (dev_of v)) (coords_of v)
      then (AList.update (dev_of v) (coords_of v) ls, ch @ [v]) else (ls, ch))"
  by (simp add: visit_def)

lemma fold_visit_changed:
  "distinct (map dev_of vs) \<Longrightarrow>
     snd (fold visit vs (ls, ch)) =
       ch @ filter (\<lambda>v. coords_differ (map_of ls (dev_of v)) (coords_of v)) vs"
proof (induction vs arbitrary: ls ch)
  case Nil
  then show ?case by simp
next
  case (Cons v vs)
  from Cons.prems have d: "distinct (map dev_of vs)" and nin: "dev_of v \<notin> dev_of ` set vs"
    by auto
  have tail: "filter (\<lambda>w. coords_differ (map_of (AList.update (dev_of v) c ls) (dev_of w)) (coords_of w)) vs
      = filter (\<lambda>w. coords_differ (map_of ls (dev_of w)) (coords_of w)) vs" for c
  proof (rule filter_cong)
    fix w assume "w \<in> set vs"
    with nin have "dev_of w \<noteq> dev_of v" by (rule other_device)
    then show "coords_differ (map_of (AList.update (dev_of v) c ls) (dev_of w)) (coords_of w)
        = coords_differ (map_of ls (dev_of w)) (coords_of w)"
      by (simp add: update_conv')
  qed simp
  show ?case
    by (simp add: visit_pair Cons.IH [OF d] tail)
qed

lemma fold_visit_sent:
  "distinct (map dev_of vs) \<Longrightarrow>
     map_of (fst (fold visit vs (ls, ch))) x =
       (case find (\<lambda>v. dev_of v = x) vs of
          None \<Rightarrow> map_of ls x
        | Some v \<Rightarrow> if coords_differ (map_of ls x) (coords_of v) then Some (coords_of v)
                    else map_of ls x)"
proof (induction vs arbitrary: ls ch)
  case Nil
  then show ?case by simp
next
  case (Cons v vs)
  from Cons.prems have d: "distinct (map dev_of vs)" and nin: "dev_of v \<notin> dev_of ` set vs"
    by auto
  have none: "find (\<lambda>w. dev_of w = dev_of v) vs = None"
    using other_device [OF nin] by (simp add: find_None_iff)
  show ?case
  proof (cases "dev_of v = x")
    case True
    with none show ?thesis
      by (auto simp: visit_pair Cons.IH [OF d] update_conv')
  next
    case False
    then show ?thesis
      by (auto simp: visit_pair Cons.IH [OF d] update_conv' split: option.splits)
  qed
qed

lemma distinct_single: "distinct xs \<Longrightarrow> set xs \<subseteq> {a} \<Longrightarrow> length xs \<le> 1"
  by (cases xs; cases "tl xs") auto

lemma distinct_short: "length xs \<le> 1 \<Longrightarrow> distinct (map g xs)"
  by (cases xs; cases "tl xs") auto

lemma latest_devices_distinct:
  "distinct (map (\<lambda>p. dev_of (snd p)) (latest_by_device (dict_reader rows)))"
proof -
  let ?key = "\<lambda>row. row_get row ''device_id'' (PStr ''unknown'')"
  let ?latest = "latest_by_device (dict_reader rows)"
  have keys: "distinct (map fst ?latest)"
    unfolding latest_by_device_def by (rule fold_update_distinct) simp
  have item: "snd p \<in> set (dict_reader rows) \<and> fst p = ?key (snd p)" if "p \<in> set ?latest" for p
    using that unfolding latest_by_device_def by (auto dest: fold_update_items)
  show ?thesis
  proof (cases "\<exists>r0 \<in> set (dict_reader rows). map_of r0 (Some ''device_id'') \<noteq> None")
    case True
    then obtain r0 where r0: "r0 \<in> set (dict_reader rows)" "map_of r0 (Some ''device_id'') \<noteq> None"
      by blast
    have same: "map (\<lambda>p. dev_of (snd p)) ?latest = map fst ?latest"
    proof (rule map_cong)
      fix p assume "p \<in> set ?latest"
      then have "snd p \<in> set (dict_reader rows)" and "fst p = ?key (snd p)"
        using item by auto
      with key_is_dev [OF r0] show "dev_of (snd p) = fst p" by simp
    qed simp
    show ?thesis unfolding same by (rule keys)
  next
    case False
    have "fst p = PStr ''unknown''" if "p \<in> set ?latest" for p
    proof -
      from that item have "snd p \<in> set (dict_reader rows)" and k: "fst p = ?key (snd p)" by auto
      with False have "map_of (snd p) (Some ''device_id'') = None" by blast
      with k show ?thesis by (simp add: row_get_def)
    qed
    then have "set (map fst ?latest) \<subseteq> {PStr ''unknown''}" by auto
    with keys have "length (map fst ?latest) \<le> 1" by (rule distinct_single)
    then have "length ?latest \<le> 1" by simp
    then show ?thesis by (rule distinct_short)
  qed
qed

lemma vehicles_distinct: "distinct (map dev_of (get_latest_locations f))"
proof (cases "read_rows f")
  case None
  then show ?thesis by (simp add: get_latest_locations_def)
next
  case (Some reader)
  then obtain rows where "reader = dict_reader rows"
    by (auto simp: read_rows_def split: store_file.splits if_splits)
  with Some latest_devices_distinct [of rows] show ?thesis
    by (simp add: get_latest_locations_def comp_def dev_of_coerce_row)
qed

lemma find_unique:
  "distinct (map g xs) \<Longrightarrow> x \<in> set xs \<Longrightarrow> find (\<lambda>y. g y = g x) xs = Some x"
proof (induction xs)
  case Nil
  then show ?case by simp
next
  case (Cons y ys)
  then show ?case by (auto simp: other_device)
qed

lemma not_differ_same: "\<not> coords_differ old c \<Longrightarrow> old = Some c"
  by (cases old) (auto simp: coords_differ_def same_coord_def prod_eq_iff)

lemma event_stream_snoc:
  "event_stream (fs @ [f]) ls =
     (fst (poll f (fst (event_stream fs ls))),
      snd (event_stream fs ls) @ snd (poll f (fst (event_stream fs ls))))"
  by (induction fs arbitrary: ls) (simp_all add: Let_def)

lemma coords_differ_iff:
  "coords_differ old c \<longleftrightarrow> old \<noteq> Some c \<or> fst c = PFloat NaN \<or> snd c = PFloat NaN"
  by (cases old) (auto simp: coords_differ_def same_coord_def prod_eq_iff)

lemma poll_events:
  "snd (poll f ls) =
     (if filter (\<lambda>v. coords_differ (map_of ls (dev_of v)) (coords_of v)) (get_latest_locations f) = []
      then []
      else [filter (\<lambda>v. coords_differ (map_of ls (dev_of v)) (coords_of v)) (get_latest_locations f)])"
  by (simp add: poll_def Let_def fold_visit_changed [OF vehicles_distinct])

lemma poll_sent_present:
  assumes "v \<in> set (get_latest_locations f)"
  shows "map_of (fst (poll f ls)) (dev_of v) = Some (coords_of v)"
  using find_unique [OF vehicles_distinct assms]
    not_differ_same [of "map_of ls (dev_of v)" "coords_of v"]
  by (auto simp: poll_def Let_def fold_visit_sent [OF vehicles_distinct])

lemma poll_sent_absent:
  assumes "x \<notin> dev_of ` set (get_latest_locations f)"
  shows "map_of (fst (poll f ls)) x = map_of ls x"
proof -
  from assms have "find (\<lambda>v. dev_of v = x) (get_latest_locations f) = None"
    by (auto simp: find_None_iff)
  then show ?thesis
    by (simp add: poll_def Let_def fold_visit_sent [OF vehicles_distinct])
qed

text \<open>
  C6, as amended: take a connection that has made the passes \<open>fs\<close>, starting from an empty
  \<^verbatim>\<open>last_sent\<close>, and let it make one more pass on the store \<open>f\<close>. A vehicle is changed
  when \<^verbatim>\<open>last_sent\<close>, as the earlier passes left it, has no entry for its device, or an
  entry other than its pair of coordinates, or when one of its coordinates is NaN, which
  equals nothing. The pass yields nothing when no vehicle is changed, and else exactly one
  event, after the earlier ones, carrying all the changed vehicles. After the pass
  \<^verbatim>\<open>last_sent\<close> holds the pair of every vehicle of \<open>f\<close> and keeps the entry of every
  other device.
\<close>

theorem change_only_emission:
  "snd (api_stream (fs @ [f])) =
     snd (api_stream fs) @
       (if filter (\<lambda>v. map_of (fst (api_stream fs)) (dev_of v) \<noteq> Some (coords_of v)
                      \<or> fst (coords_of v) = PFloat NaN \<or> snd (coords_of v) = PFloat NaN)
             (get_latest_locations f) = []
        then []
        else [filter (\<lambda>v. map_of (fst (api_stream fs)) (dev_of v) \<noteq> Some (coords_of v)
                         \<or> fst (coords_of v) = PFloat NaN \<or> snd (coords_of v) = PFloat NaN)
                (get_latest_locations f)])
   \<and> (v \<in> set (get_latest_locations f)
        \<longrightarrow> map_of (fst (api_stream (fs @ [f]))) (dev_of v) = Some (coords_of v))
   \<and> (x \<notin> dev_of ` set (get_latest_locations f)
        \<longrightarrow> map_of (fst (api_stream (fs @ [f]))) x = map_of (fst (api_stream fs)) x)
   \<and> api_stream [] = ([], [])"
  by (simp add: api_stream_def event_stream_snoc poll_events poll_sent_present poll_sent_absent
        coords_differ_iff)

theorem change_only_emission_witness:
  "coerce_row (dict_row csv_header
      [''bus2'', ''9'', ''8'', [], [], ''2024-05-02T11:00:00'', [], ''r4'', ''{}''])
     \<in> set (get_latest_locations (Content moved_rows)) \<and>
   PStr ''bus9'' \<notin> dev_of ` set (get_latest_locations (Content moved_rows)) \<and>
   snd (api_stream ([example_store] @ [Content moved_rows])) =
     [[coerce_row (dict_row csv_header
         [''bus1'', ''3'', ''4'', [], [], ''2024-05-01T08:00:00'', [], ''r3'', ''{}'']),
       coerce_row (dict_row csv_header
         [''bus2'', ''7'', ''8'', [], [], ''2024-05-01T09:00:00'', [], ''r2'', ''{}''])],
      [coerce_row (dict_row csv_header
         [''bus2'', ''9'', ''8'', [], [], ''2024-05-02T11:00:00'', [], ''r4'', ''{}''])]] \<and>
   map_of (fst (api_stream ([example_store] @ [Content moved_rows]))) (PStr ''bus2'')
     = Some (PFloat (Fin 9), PFloat (Fin 8)) \<and>
   map_of (fst (api_stream ([example_store] @ [Content moved_rows]))) (PStr ''bus9'') = None"
proof -
  let ?v = "coerce_row (dict_row csv_header
      [''bus2'', ''9'', ''8'', [], [], ''2024-05-02T11:00:00'', [], ''r4'', ''{}''])"
  let ?m = "Content moved_rows"
  have h1: "?v \<in> set (get_latest_locations ?m)" by code_simp
  have h2: "PStr ''bus9'' \<notin> dev_of ` set (get_latest_locations ?m)" by code_simp
  have first: "snd (api_stream [example_store]) =
     [[coerce_row (dict_row csv_header
         [''bus1'', ''3'', ''4'', [], [], ''2024-05-01T08:00:00'', [], ''r3'', ''{}'']),
       coerce_row (dict_row csv_header
         [''bus2'', ''7'', ''8'', [], [], ''2024-05-01T09:00:00'', [], ''r2'', ''{}''])]]"
    by code_simp
  have ch: "filter (\<lambda>v. map_of (fst (api_stream [example_store])) (dev_of v) \<noteq> Some (coords_of v)
                      \<or> fst (coords_of v) = PFloat NaN \<or> snd (coords_of v) = PFloat NaN)
             (get_latest_locations ?m) = [?v]"
    by code_simp
  have dv: "dev_of ?v = PStr ''bus2''" by code_simp
  have cv: "coords_of ?v = (PFloat (Fin 9), PFloat (Fin 8))" by code_simp
  have old: "map_of (fst (api_stream [example_store])) (PStr ''bus9'') = None" by code_simp
  note t = change_only_emission [of "[example_store]" ?m ?v "PStr ''bus9''"]
  from t have ev: "snd (api_stream ([example_store] @ [?m])) =
      snd (api_stream [example_store]) @ [[?v]]"
    unfolding ch by simp
  from t h1 have s1: "map_of (fst (api_stream ([example_store] @ [?m]))) (dev_of ?v)
      = Some (coords_of ?v)" by blast
  from t h2 have s2: "map_of (fst (api_stream ([example_store] @ [?m]))) (PStr ''bus9'')
      = map_of (fst (api_stream [example_store])) (PStr ''bus9'')" by blast
  from ev first have e: "snd (api_stream ([example_store] @ [?m])) =
     [[coerce_row (dict_row csv_header
         [''bus1'', ''3'', ''4'', [], [], ''2024-05-01T08:00:00'', [], ''r3'', ''{}'']),
       coerce_row (dict_row csv_header
         [''bus2'', ''7'', ''8'', [], [], ''2024-05-01T09:00:00'', [], ''r2'', ''{}''])],
      [?v]]" by simp
  from s1 have s1': "map_of (fst (api_stream ([example_store] @ [?m]))) (PStr ''bus2'')
     = Some (PFloat (Fin 9), PFloat (Fin 8))" unfolding dv cv .
  from s2 old have s2': "map_of (fst (api_stream ([example_store] @ [?m]))) (PStr ''bus9'') = None"
    by simp
  from h1 h2 e s1' s2' show ?thesis by blast
qed

text \<open>
  Against C6 as stated: the store does not change between two passes, and after the first
  the \<^verbatim>\<open>last_sent\<close> entry of \<^verbatim>\<open>bus1\<close> is its very pair of coordinates; the latitude
  is NaN, and the second pass sends \<^verbatim>\<open>bus1\<close> again.
\<close>

theorem nan_position_sent_again:
  "get_latest_locations (Content nan_rows) =
     [coerce_row (dict_row csv_header [''bus1'', ''nan'', ''3'', [], [], ''t'', [], ''r'', ''{}''])] \<and>
   coords_of (coerce_row (dict_row csv_header
       [''bus1'', ''nan'', ''3'', [], [], ''t'', [], ''r'', ''{}''])) = (PFloat NaN, PFloat (Fin 3)) \<and>
   map_of (fst (api_stream [Content nan_rows])) (PStr ''bus1'') = Some (PFloat NaN, PFloat (Fin 3)) \<and>
   snd (api_stream [Content nan_rows, Content nan_rows]) =
     [[coerce_row (dict_row csv_header [''bus1'', ''nan'', ''3'', [], [], ''t'', [], ''r'', ''{}''])],
      [coerce_row (dict_row csv_header [''bus1'', ''nan'', ''3'', [], [], ''t'', [], ''r'', ''{}''])]]"
  by code_simp

end
